theory Spec2Isabelle
  imports Complex_Main "HOL-Library.Word"
begin

section \<open>Floating-point values of the sketch\<close>

text \<open>
  The sketch computes on \<open>float\<close>. A value is modelled as a real number or one of the
  three special values of IEEE 754, so that a division by zero is a value of the model
  as it is on the target (no trap: an infinity, or NaN for \<open>0 / 0\<close>). Rounding and
  overflow to infinity are not modelled (arithmetic on finite values is exact), and the
  sign of zero is not tracked: a zero divisor counts as \<open>+0\<close>, which is what the
  conversion of an unsigned counter gives.
\<close>

datatype flt = Fin real | PInf | NInf | NaN

fun fneg :: "flt \<Rightarrow> flt" where
  "fneg (Fin x) = Fin (- x)"
| "fneg PInf = NInf"
| "fneg NInf = PInf"
| "fneg NaN = NaN"

fun fadd :: "flt \<Rightarrow> flt \<Rightarrow> flt" where
  "fadd NaN _ = NaN"
| "fadd _ NaN = NaN"
| "fadd PInf NInf = NaN"
| "fadd NInf PInf = NaN"
| "fadd PInf _ = PInf"
| "fadd _ PInf = PInf"
| "fadd NInf _ = NInf"
| "fadd _ NInf = NInf"
| "fadd (Fin x) (Fin y) = Fin (x + y)"

definition fsub :: "flt \<Rightarrow> flt \<Rightarrow> flt" where
  "fsub a b = fadd a (fneg b)"

text \<open>The sign of a value as \<open>-1\<close>, \<open>0\<close>, \<open>1\<close>; NaN has none.\<close>

fun fsign :: "flt \<Rightarrow> int option" where
  "fsign (Fin x) = Some (if x < 0 then - 1 else if x = 0 then 0 else 1)"
| "fsign PInf = Some 1"
| "fsign NInf = Some (- 1)"
| "fsign NaN = None"

definition inf_of_sign :: "int \<Rightarrow> flt" where
  "inf_of_sign s = (if s < 0 then NInf else PInf)"

fun fmul :: "flt \<Rightarrow> flt \<Rightarrow> flt" where
  "fmul (Fin x) (Fin y) = Fin (x * y)"
| "fmul a b =
     (case (fsign a, fsign b) of
        (Some sa, Some sb) \<Rightarrow> (if sa * sb = 0 then NaN else inf_of_sign (sa * sb))
      | _ \<Rightarrow> NaN)"

text \<open>
  Division: \<open>x / 0\<close> is an infinity of the sign of \<open>x\<close> for a finite non-zero \<open>x\<close>,
  \<open>0 / 0\<close> and \<open>inf / inf\<close> are NaN, a finite value over an infinity is zero.
\<close>

fun fdiv :: "flt \<Rightarrow> flt \<Rightarrow> flt" where
  "fdiv NaN _ = NaN"
| "fdiv _ NaN = NaN"
| "fdiv (Fin x) (Fin y) =
     (if y = 0 then (if x = 0 then NaN else if x < 0 then NInf else PInf)
      else Fin (x / y))"
| "fdiv (Fin x) _ = Fin 0"
| "fdiv a (Fin y) =
     (if y < 0 then fneg a else a)"
| "fdiv _ _ = NaN"

text \<open>Comparisons; every comparison with NaN is false.\<close>

fun fless :: "flt \<Rightarrow> flt \<Rightarrow> bool" where
  "fless NaN _ = False"
| "fless _ NaN = False"
| "fless (Fin x) (Fin y) = (x < y)"
| "fless NInf NInf = False"
| "fless NInf _ = True"
| "fless PInf _ = False"
| "fless (Fin x) PInf = True"
| "fless (Fin x) NInf = False"

fun fle :: "flt \<Rightarrow> flt \<Rightarrow> bool" where
  "fle NaN _ = False"
| "fle _ NaN = False"
| "fle (Fin x) (Fin y) = (x \<le> y)"
| "fle NInf _ = True"
| "fle PInf PInf = True"
| "fle PInf _ = False"
| "fle (Fin x) PInf = True"
| "fle (Fin x) NInf = False"

text \<open>
  The \<open>abs\<close> of the Arduino core is the macro \<open>((x)>0?(x):-(x))\<close>.
\<close>

definition abs_macro :: "flt \<Rightarrow> flt" where
  "abs_macro x = (if fless (Fin 0) x then x else fneg x)"

text \<open>Conversion of an unsigned integer of the sketch to \<open>float\<close>.\<close>

definition of_counter :: "'a::len word \<Rightarrow> flt" where
  "of_counter c = Fin (real (unat c))"

section \<open>Constants defined by the user\<close>

definition fuelMax :: int where
  "fuelMax = 21"

definition fuelAlarm :: int where
  "fuelAlarm = 4"

definition distance :: "16 word" where
  "distance = 500"

definition wheelCircum :: flt where
  "wheelCircum = Fin (1915 / 1000)"

definition interval :: "32 word" where
  "interval = 5000"

section \<open>Fuel consumption measurement\<close>

text \<open>
  What \<open>consumption\<close> writes on row 2 of the display is kept as the list of the
  printed figures, in the order of printing: the number and the unit that follows it.
  The literal \<open>"0.00 L/100 km"\<close> is the figure \<open>Fin 0\<close> with the unit
  \<open>L_per_100km\<close>. Blanking the row before each figure is not kept. On row 3 the sketch
  prints the two flows in litres and the distance in metres.

  Each division of the function is made through \<open>divide\<close>, which keeps the
  dividend and the divisor beside the quotient. The function goes on with the quotient,
  and its divisions are listed in the order of evaluation, so that a division by zero
  and what it yields can be observed. \<open>60 / interval\<close> is a division of
  \<open>unsigned long\<close>.
\<close>

record division =
  dividend :: flt
  divisor :: flt
  quotient :: flt

definition divide :: "flt \<Rightarrow> flt \<Rightarrow> division" where
  "divide a b = \<lparr>dividend = a, divisor = b, quotient = fdiv a b\<rparr>"

definition divide_ulong :: "32 word \<Rightarrow> 32 word \<Rightarrow> division" where
  "divide_ulong a b =
     \<lparr>dividend = of_counter a, divisor = of_counter b, quotient = of_counter (a div b)\<rparr>"

datatype unit_of_measure = L_per_100km | L_per_min

record report =
  figure :: flt
  unit_shown :: unit_of_measure

record outcome =
  row2 :: "report list"
  row3 :: "flt \<times> flt \<times> flt"
  divisions :: "division list"

definition consumption :: "flt \<Rightarrow> flt \<Rightarrow> flt \<Rightarrow> outcome" where
  "consumption copyFlow1 copyFlow2 copyWheel =
    (let d1 = divide copyFlow1 (Fin 450);
         copyFlow1' = quotient d1;
         d2 = divide copyFlow2 (Fin 450);
         copyFlow2' = quotient d2;
         diff = fmul (Fin 100) (abs_macro (fsub copyFlow1' copyFlow2'));
         copyWheel' = fmul copyWheel wheelCircum;
         d3 = divide (Fin 100000) copyWheel';
         coeff = quotient d3;
         d4 = divide diff copyWheel';
         consumption1 = fmul (quotient d4) coeff;
         first = (if fless (Fin 0) consumption1
                  then \<lparr>figure = consumption1, unit_shown = L_per_100km\<rparr>
                  else \<lparr>figure = Fin 0, unit_shown = L_per_100km\<rparr>);
         stationary = fle copyWheel' (Fin 0);
         d5 = divide_ulong 60 interval;
         consumption2 = fmul (quotient d5) diff
     in \<lparr>row2 = (if stationary
                 then [first, \<lparr>figure = consumption2, unit_shown = L_per_min\<rparr>]
                 else [first]),
         row3 = (copyFlow1', copyFlow2', copyWheel'),
         divisions = [d1, d2, d3, d4] @ (if stationary then [d5] else [])\<rparr>)"

text \<open>The divisors of the divisions made, in the order of evaluation.\<close>

definition divisors :: "outcome \<Rightarrow> flt list" where
  "divisors out = map divisor (divisions out)"

text \<open>The figure that stays on the display is the last one printed.\<close>

definition displayed :: "outcome \<Rightarrow> report" where
  "displayed out = last (row2 out)"

definition divides_by_zero :: "outcome \<Rightarrow> bool" where
  "divides_by_zero out = (Fin 0 \<in> set (divisors out))"

section \<open>Pulse counters and the snapshot\<close>

text \<open>
  The globals of the sketch that the interrupt handlers and the distance-triggered part
  of \<open>loop\<close> use. \<open>unsigned short\<close> is 16 bits and \<open>unsigned long\<close> 32 bits on the
  board. \<open>interrupts_enabled\<close> is the global interrupt flag that \<open>noInterrupts()\<close>
  clears and \<open>interrupts()\<close> sets.
\<close>

record state =
  countFlow1 :: "16 word"
  countFlow2 :: "16 word"
  countWheel :: "16 word"
  copyFlow1 :: flt
  copyFlow2 :: flt
  copyWheel :: flt
  lastRead :: "32 word"
  interrupts_enabled :: bool

definition initial :: state where
  "initial = \<lparr>countFlow1 = 0, countFlow2 = 0, countWheel = 0,
               copyFlow1 = Fin 0, copyFlow2 = Fin 0, copyWheel = Fin 0,
               lastRead = 0, interrupts_enabled = True\<rparr>"

definition isrFlow1 :: "state \<Rightarrow> state" where
  "isrFlow1 s = s\<lparr>countFlow1 := countFlow1 s + 1\<rparr>"

definition isrFlow2 :: "state \<Rightarrow> state" where
  "isrFlow2 s = s\<lparr>countFlow2 := countFlow2 s + 1\<rparr>"

definition isrWheel :: "state \<Rightarrow> state" where
  "isrWheel s = s\<lparr>countWheel := countWheel s + 1\<rparr>"

definition noInterrupts :: "state \<Rightarrow> state" where
  "noInterrupts s = s\<lparr>interrupts_enabled := False\<rparr>"

definition interrupts :: "state \<Rightarrow> state" where
  "interrupts s = s\<lparr>interrupts_enabled := True\<rparr>"

text \<open>
  The eight statements of \<open>loop\<close> from \<open>noInterrupts()\<close> to \<open>interrupts()\<close>, in the
  order of the source. The assignment of a counter to its \<open>float\<close> copy converts it.
\<close>

definition critical_section :: "(state \<Rightarrow> state) list" where
  "critical_section =
    [noInterrupts,
     (\<lambda>s. s\<lparr>copyFlow1 := of_counter (countFlow1 s)\<rparr>),
     (\<lambda>s. s\<lparr>copyFlow2 := of_counter (countFlow2 s)\<rparr>),
     (\<lambda>s. s\<lparr>copyWheel := of_counter (countWheel s)\<rparr>),
     (\<lambda>s. s\<lparr>countFlow1 := 0\<rparr>),
     (\<lambda>s. s\<lparr>countFlow2 := 0\<rparr>),
     (\<lambda>s. s\<lparr>countWheel := 0\<rparr>),
     interrupts]"

definition exec :: "(state \<Rightarrow> state) list \<Rightarrow> state \<Rightarrow> state" where
  "exec stmts s = fold (\<lambda>stmt t. stmt t) stmts s"

definition snapshot_and_reset :: "state \<Rightarrow> state" where
  "snapshot_and_reset s = exec critical_section s"

text \<open>
  The distance-triggered part of \<open>loop\<close>: the guard, the update of \<open>lastRead\<close>, the
  snapshot and the call of \<open>consumption\<close> on the three copies. The result is the new
  state and what \<open>consumption\<close> did, if it was called.
\<close>

definition loop :: "state \<Rightarrow> state \<times> outcome option" where
  "loop s =
    (if fle (of_counter distance) (fmul (of_counter (countWheel s)) wheelCircum)
     then (let s1 = s\<lparr>lastRead := lastRead s + interval\<rparr>;
               s2 = snapshot_and_reset s1
           in (s2, Some (consumption (copyFlow1 s2) (copyFlow2 s2) (copyWheel s2))))
     else (s, None))"

subsection \<open>Pulses interleaved with snapshots\<close>

text \<open>
  A run of the counting layer is a sequence of events: one call of an interrupt
  handler, or one execution of the critical section. The handlers cannot run inside
  the critical section, where interrupts are disabled, so the critical section is one
  event. A run returns the snapshots it took, oldest first, and the final state.
\<close>

datatype event = PulseFlow1 | PulseFlow2 | PulseWheel | Snapshot

fun run :: "event list \<Rightarrow> state \<Rightarrow> (flt \<times> flt \<times> flt) list \<times> state" where
  "run [] s = ([], s)"
| "run (PulseFlow1 # es) s = run es (isrFlow1 s)"
| "run (PulseFlow2 # es) s = run es (isrFlow2 s)"
| "run (PulseWheel # es) s = run es (isrWheel s)"
| "run (Snapshot # es) s =
     (let s' = snapshot_and_reset s;
          (snaps, t) = run es s'
      in ((copyFlow1 s', copyFlow2 s', copyWheel s') # snaps, t))"

text \<open>
  The counter that a pulse event increments, the component of a snapshot that is its
  copy, and the handler of an event.
\<close>

definition counter :: "event \<Rightarrow> state \<Rightarrow> 16 word" where
  "counter e s = (case e of PulseFlow1 \<Rightarrow> countFlow1 s | PulseFlow2 \<Rightarrow> countFlow2 s
                  | PulseWheel \<Rightarrow> countWheel s | Snapshot \<Rightarrow> 0)"

definition copy_of :: "event \<Rightarrow> flt \<times> flt \<times> flt \<Rightarrow> flt" where
  "copy_of e snap = (case e of PulseFlow1 \<Rightarrow> fst snap | PulseFlow2 \<Rightarrow> fst (snd snap)
                  | PulseWheel \<Rightarrow> snd (snd snap) | Snapshot \<Rightarrow> Fin 0)"

definition handler :: "event \<Rightarrow> state \<Rightarrow> state" where
  "handler e s = (case e of PulseFlow1 \<Rightarrow> isrFlow1 s | PulseFlow2 \<Rightarrow> isrFlow2 s
                  | PulseWheel \<Rightarrow> isrWheel s | Snapshot \<Rightarrow> snapshot_and_reset s)"

text \<open>
  A snapshot value is the conversion of a counter, a finite number: the number of
  pulses it stands for.
\<close>

fun is_finite :: "flt \<Rightarrow> bool" where
  "is_finite (Fin x) = True"
| "is_finite _ = False"

fun pulses_of :: "flt \<Rightarrow> real" where
  "pulses_of (Fin x) = x"
| "pulses_of _ = 0"

text \<open>The pulses of one sensor seen in all the snapshots of a run.\<close>

definition seen :: "event \<Rightarrow> (flt \<times> flt \<times> flt) list \<Rightarrow> real" where
  "seen e snaps = sum_list (map (\<lambda>snap. pulses_of (copy_of e snap)) snaps)"

text \<open>The pulses of one sensor generated in a run.\<close>

definition generated :: "event \<Rightarrow> event list \<Rightarrow> real" where
  "generated e es = real (count_list es e)"

text \<open>
  No counter is at its largest value when its handler runs: between two snapshots
  each counter receives fewer than \<open>2 ^ 16\<close> pulses.
\<close>

fun no_overflow :: "event list \<Rightarrow> state \<Rightarrow> bool" where
  "no_overflow [] s = True"
| "no_overflow (PulseFlow1 # es) s = (unat (countFlow1 s) < 65535 \<and> no_overflow es (isrFlow1 s))"
| "no_overflow (PulseFlow2 # es) s = (unat (countFlow2 s) < 65535 \<and> no_overflow es (isrFlow2 s))"
| "no_overflow (PulseWheel # es) s = (unat (countWheel s) < 65535 \<and> no_overflow es (isrWheel s))"
| "no_overflow (Snapshot # es) s = no_overflow es (snapshot_and_reset s)"

section \<open>Low-fuel alarm\<close>

text \<open>Division of \<open>int\<close> in C truncates towards zero.\<close>

definition cdiv :: "int \<Rightarrow> int \<Rightarrow> int" where
  "cdiv a b = sgn a * sgn b * (\<bar>a\<bar> div \<bar>b\<bar>)"

text \<open>
  \<open>buzz\<close> sounds the two beeps if the buzzer is not disabled, and disables it. The
  result is whether it sounded, and the new \<open>buzzDIS\<close>.
\<close>

definition buzz :: "8 word \<Rightarrow> bool \<times> 8 word" where
  "buzz buzzDIS = (buzzDIS = 0, 1)"

text \<open>
  The alarm part of \<open>fuel\<close>, on the percentage \<open>fuelPerc\<close> that the function derives
  from the analog reading (the reading and the drawing of the bar are left out).
\<close>

definition fuel :: "int \<Rightarrow> 8 word \<Rightarrow> bool \<times> 8 word" where
  "fuel fuelPerc buzzDIS =
    (if fuelPerc \<ge> 80 then (False, 0)
     else if fuelPerc \<le> cdiv (100 * fuelAlarm) fuelMax then buzz buzzDIS
     else (False, buzzDIS))"

text \<open>
  Successive evaluations of \<open>fuel\<close>. For each sample: whether the alarm sounded, and
  whether the sample re-armed it (the buzzer was disabled before and is enabled after).
\<close>

fun fuel_run :: "int list \<Rightarrow> 8 word \<Rightarrow> (bool \<times> bool) list" where
  "fuel_run [] buzzDIS = []"
| "fuel_run (p # ps) buzzDIS =
     (let (sounded, buzzDIS') = fuel p buzzDIS
      in (sounded, buzzDIS \<noteq> 0 \<and> buzzDIS' = 0) # fuel_run ps buzzDIS')"

definition alarms :: "(bool \<times> bool) list \<Rightarrow> nat" where
  "alarms r = length (filter fst r)"

section \<open>Engine RPM\<close>

text \<open>
  \<open>pulseIn\<close> returns an \<open>unsigned long\<close>, which the sketch stores in an \<open>int\<close> of 16
  bits. \<open>60000\<close> is a \<open>long\<close>, so the division is a signed division of \<open>long\<close>, and its
  result is stored in an \<open>int\<close> again. The source divides without a test; an integer
  division by zero has no defined result in C, and is the fault of the model.
\<close>

datatype fault = Division_by_zero

definition rpm :: "32 word \<Rightarrow> fault + 16 word" where
  "rpm pulse =
    (let duration = (ucast pulse :: 16 word)
     in if sint duration = 0 then Inl Division_by_zero
        else Inr (word_of_int (cdiv 60000 (sint duration))))"

section \<open>Properties of the consumption computation\<close>

lemmas consumption_unfold =
  consumption_def divide_def divide_ulong_def divisors_def Let_def abs_macro_def fsub_def
  wheelCircum_def of_counter_def interval_def

text \<open>
  What the function computes for a positive distance count: the difference of the two
  flows in litres, times 100, divided by the distance in metres, times \<open>100000\<close>
  divided by the distance in metres again.
\<close>

lemma consumption_moving:
  assumes "0 < w"
  shows "consumption (Fin x) (Fin y) (Fin w) =
     \<lparr>row2 = [\<lparr>figure = Fin ((100 * \<bar>x / 450 - y / 450\<bar> / (w * (1915 / 1000)))
                               * (100000 / (w * (1915 / 1000)))),
               unit_shown = L_per_100km\<rparr>],
      row3 = (Fin (x / 450), Fin (y / 450), Fin (w * (1915 / 1000))),
      divisions =
        [\<lparr>dividend = Fin x, divisor = Fin 450, quotient = Fin (x / 450)\<rparr>,
         \<lparr>dividend = Fin y, divisor = Fin 450, quotient = Fin (y / 450)\<rparr>,
         \<lparr>dividend = Fin 100000, divisor = Fin (w * (1915 / 1000)),
          quotient = Fin (100000 / (w * (1915 / 1000)))\<rparr>,
         \<lparr>dividend = Fin (100 * \<bar>x / 450 - y / 450\<bar>), divisor = Fin (w * (1915 / 1000)),
          quotient = Fin (100 * \<bar>x / 450 - y / 450\<bar> / (w * (1915 / 1000)))\<rparr>]\<rparr>"
  using assms
  by (auto simp add: consumption_unfold zero_less_mult_iff mult_less_0_iff not_less abs_if)

text \<open>
  For a distance count that is zero or negative the figure left on the display is
  always zero litres per minute: \<open>60 / interval\<close> is a division of integers, \<open>60 / 5000\<close>.
\<close>

lemma stationary_figure_zero:
  assumes "w \<le> 0"
  shows "displayed (consumption (Fin x) (Fin y) (Fin w))
         = \<lparr>figure = Fin 0, unit_shown = L_per_min\<rparr>"
  using assms
  by (simp add: consumption_unfold displayed_def mult_le_0_iff)

text \<open>
  C1. At the worked example of the specification (900 and 450 flow pulses, 261 distance
  pulses) the function prints about 40.03 L/100 km, not about 200: the printed figure is
  \<open>100 * 1.0 / 499.815 * (100000 / 499.815)\<close>, whereas
  \<open>(fuelDelta / distanceMeters) * 100000\<close> is about 200.07 there.
\<close>

theorem consumption_worked_example:
  "row2 (consumption (Fin 900) (Fin 450) (Fin 261))
     = [\<lparr>figure = Fin (400000000000 / 9992601369), unit_shown = L_per_100km\<rparr>]
   \<and> (40 :: real) < 400000000000 / 9992601369
   \<and> (400000000000 / 9992601369 :: real) < 41
   \<and> (200 :: real) < (\<bar>900 / 450 - 450 / 450\<bar> / (261 * (1915 / 1000))) * 100000"
  by (simp add: consumption_unfold)

text \<open>
  C3, as the code has it. For every snapshot whose distance in metres is zero, the
  function prints two figures: first one in litres per 100 km (infinity when the two
  flows differ, the literal 0.00 when they are equal), then one in litres per minute
  that overwrites it and is the one left on the display. Before it tests the distance,
  the computation divides by the zero distance twice: \<open>100000 / copyWheel\<close> yields
  plus infinity, and \<open>diff / copyWheel\<close> yields plus infinity when the flows differ and
  NaN when they are equal.
\<close>

theorem consumption_zero_distance:
  assumes "fmul (Fin w) wheelCircum = Fin 0"
  shows "unit_shown (displayed (consumption (Fin x) (Fin y) (Fin w))) = L_per_min
    \<and> map unit_shown (row2 (consumption (Fin x) (Fin y) (Fin w))) = [L_per_100km, L_per_min]
    \<and> divisors (consumption (Fin x) (Fin y) (Fin w))
        = [Fin 450, Fin 450, Fin 0, Fin 0, Fin 5000]
    \<and> take 2 (drop 2 (divisions (consumption (Fin x) (Fin y) (Fin w))))
        = [\<lparr>dividend = Fin 100000, divisor = Fin 0, quotient = PInf\<rparr>,
           \<lparr>dividend = Fin (100 * \<bar>x / 450 - y / 450\<bar>), divisor = Fin 0,
            quotient = (if x = y then NaN else PInf)\<rparr>]
    \<and> figure (hd (row2 (consumption (Fin x) (Fin y) (Fin w))))
        = (if x = y then Fin 0 else PInf)"
proof -
  from assms have w: "w = 0"
    by (simp add: wheelCircum_def)
  show ?thesis
    unfolding w
    by (simp add: consumption_unfold displayed_def abs_if inf_of_sign_def)
qed

theorem consumption_zero_distance_witness:
  "fmul (Fin 0) wheelCircum = Fin 0
   \<and> unit_shown (displayed (consumption (Fin 450) (Fin 0) (Fin 0))) = L_per_min
   \<and> map unit_shown (row2 (consumption (Fin 450) (Fin 0) (Fin 0))) = [L_per_100km, L_per_min]
   \<and> divisors (consumption (Fin 450) (Fin 0) (Fin 0))
       = [Fin 450, Fin 450, Fin 0, Fin 0, Fin 5000]
   \<and> take 2 (drop 2 (divisions (consumption (Fin 450) (Fin 0) (Fin 0))))
       = [\<lparr>dividend = Fin 100000, divisor = Fin 0, quotient = PInf\<rparr>,
          \<lparr>dividend = Fin 100, divisor = Fin 0, quotient = PInf\<rparr>]
   \<and> figure (hd (row2 (consumption (Fin 450) (Fin 0) (Fin 0)))) = PInf
   \<and> take 2 (drop 2 (divisions (consumption (Fin 450) (Fin 450) (Fin 0))))
       = [\<lparr>dividend = Fin 100000, divisor = Fin 0, quotient = PInf\<rparr>,
          \<lparr>dividend = Fin 0, divisor = Fin 0, quotient = NaN\<rparr>]
   \<and> figure (hd (row2 (consumption (Fin 450) (Fin 450) (Fin 0)))) = Fin 0"
proof -
  have h: "fmul (Fin 0) wheelCircum = Fin 0"
    by (simp add: wheelCircum_def)
  from h consumption_zero_distance [OF h, of 450 0]
    consumption_zero_distance [OF h, of 450 450]
  show ?thesis
    by simp
qed

text \<open>
  C3 as stated fails: on the snapshot of all zeros the distance is zero, both divisions
  by the distance are divisions by zero (they yield plus infinity and NaN), and the
  first figure printed is in litres per 100 km.
\<close>

theorem zero_distance_divides_by_zero:
  "fmul (Fin 0) wheelCircum = Fin 0
   \<and> divides_by_zero (consumption (Fin 0) (Fin 0) (Fin 0))
   \<and> take 2 (drop 2 (divisions (consumption (Fin 0) (Fin 0) (Fin 0))))
       = [\<lparr>dividend = Fin 100000, divisor = Fin 0, quotient = PInf\<rparr>,
          \<lparr>dividend = Fin 0, divisor = Fin 0, quotient = NaN\<rparr>]
   \<and> unit_shown (hd (row2 (consumption (Fin 0) (Fin 0) (Fin 0)))) = L_per_100km"
  by (simp add: consumption_unfold divides_by_zero_def)

text \<open>
  C4. On a stationary snapshot with one litre of fuel difference (450 pulses against
  none, no distance pulse) the function leaves \<open>0.00 L/min\<close> on the display, where
  \<open>fuelDelta * (60 / windowSeconds)\<close> with a window of 5 seconds is 12.
\<close>

theorem consumption_stationary_example:
  "displayed (consumption (Fin 450) (Fin 0) (Fin 0))
     = \<lparr>figure = Fin 0, unit_shown = L_per_min\<rparr>
   \<and> \<bar>450 / 450 - 0 / 450\<bar> * (60 / 5) = (12 :: real)"
  by (simp add: consumption_unfold displayed_def)

text \<open>
  C5. When the two flow totals of a snapshot are equal, every figure that the function
  prints is zero, whatever the distance total, and so is the figure left on the display.
\<close>

theorem consumption_equal_flows:
  "(\<forall>r \<in> set (row2 (consumption (Fin x) (Fin x) (Fin w))). figure r = Fin 0)
   \<and> figure (displayed (consumption (Fin x) (Fin x) (Fin w))) = Fin 0"
  by (simp add: consumption_unfold displayed_def)

theorem consumption_equal_flows_witness:
  "map figure (row2 (consumption (Fin 450) (Fin 450) (Fin 0))) = [Fin 0, Fin 0]
   \<and> figure (displayed (consumption (Fin 450) (Fin 450) (Fin 0))) = Fin 0"
proof -
  have "map unit_shown (row2 (consumption (Fin 450) (Fin 450) (Fin 0)))
      = [L_per_100km, L_per_min]"
    by (simp add: consumption_unfold)
  then obtain r1 r2 where "row2 (consumption (Fin 450) (Fin 450) (Fin 0)) = [r1, r2]"
    by auto
  with consumption_equal_flows [of 450 0] show ?thesis
    by simp
qed

section \<open>Properties of the snapshot\<close>

lemma snapshot_and_reset_eq:
  "snapshot_and_reset s =
     s\<lparr>countFlow1 := 0, countFlow2 := 0, countWheel := 0,
       copyFlow1 := of_counter (countFlow1 s), copyFlow2 := of_counter (countFlow2 s),
       copyWheel := of_counter (countWheel s), interrupts_enabled := True\<rparr>"
  by (simp add: snapshot_and_reset_def exec_def critical_section_def
      noInterrupts_def interrupts_def)

text \<open>
  C8. The critical section has eight statements. After it, the three counters are zero
  and each copy is the number its counter held on entry; after each of its first seven
  statements interrupts are disabled, and after the last they are enabled.
\<close>

theorem snapshot_and_reset_correct:
  "countFlow1 (snapshot_and_reset s) = 0 \<and> countFlow2 (snapshot_and_reset s) = 0
   \<and> countWheel (snapshot_and_reset s) = 0
   \<and> copyFlow1 (snapshot_and_reset s) = Fin (real (unat (countFlow1 s)))
   \<and> copyFlow2 (snapshot_and_reset s) = Fin (real (unat (countFlow2 s)))
   \<and> copyWheel (snapshot_and_reset s) = Fin (real (unat (countWheel s)))
   \<and> length critical_section = 8
   \<and> map (\<lambda>k. interrupts_enabled (exec (take k critical_section) s)) [1..<8]
       = replicate 7 False
   \<and> interrupts_enabled (snapshot_and_reset s)"
  by (simp add: snapshot_and_reset_eq of_counter_def)
     (simp add: exec_def critical_section_def noInterrupts_def interrupts_def
        upt_rec numeral_nat)

theorem snapshot_and_reset_correct_witness:
  "countFlow1 (snapshot_and_reset
      (initial\<lparr>countFlow1 := 900, countFlow2 := 450, countWheel := 262\<rparr>)) = 0
   \<and> countFlow2 (snapshot_and_reset
      (initial\<lparr>countFlow1 := 900, countFlow2 := 450, countWheel := 262\<rparr>)) = 0
   \<and> countWheel (snapshot_and_reset
      (initial\<lparr>countFlow1 := 900, countFlow2 := 450, countWheel := 262\<rparr>)) = 0
   \<and> copyFlow1 (snapshot_and_reset
      (initial\<lparr>countFlow1 := 900, countFlow2 := 450, countWheel := 262\<rparr>)) = Fin 900
   \<and> copyFlow2 (snapshot_and_reset
      (initial\<lparr>countFlow1 := 900, countFlow2 := 450, countWheel := 262\<rparr>)) = Fin 450
   \<and> copyWheel (snapshot_and_reset
      (initial\<lparr>countFlow1 := 900, countFlow2 := 450, countWheel := 262\<rparr>)) = Fin 262"
  using snapshot_and_reset_correct
    [of "initial\<lparr>countFlow1 := 900, countFlow2 := 450, countWheel := 262\<rparr>"]
  by (simp add: initial_def)

section \<open>Properties of the distance trigger\<close>

lemma threshold_pulses: "(500 \<le> real n * (1915 / 1000)) \<longleftrightarrow> 262 \<le> n"
proof
  assume "500 \<le> real n * (1915 / 1000)"
  then have "real 500000 \<le> real (n * 1915)" by simp
  then have "500000 \<le> n * 1915" by (simp only: of_nat_le_iff)
  then show "262 \<le> n" by arith
next
  assume "262 \<le> n"
  then have "real 262 \<le> real n" by (simp only: of_nat_le_iff)
  then show "500 \<le> real n * (1915 / 1000)" by simp
qed

lemma loop_guard:
  "fle (of_counter distance) (fmul (of_counter c) wheelCircum) \<longleftrightarrow> 262 \<le> unat (c :: 16 word)"
  using threshold_pulses [of "unat c"]
  by (simp add: of_counter_def distance_def wheelCircum_def)

text \<open>
  Wheel pulses that arrive after the guard has been tested and before the critical
  section only add to the counter: as long as it does not overflow, it still holds at
  least 262 pulses when it is copied.
\<close>

lemma isrWheel_funpow: "(isrWheel ^^ k) s = s\<lparr>countWheel := countWheel s + of_nat k\<rparr>"
  by (induction k) (simp_all add: isrWheel_def add.commute add.left_commute)

lemma guard_stable_under_pulses:
  assumes "262 \<le> unat (countWheel s)" and "unat (countWheel s) + k < 65536"
  shows "262 \<le> unat (countWheel ((isrWheel ^^ k) s))"
proof -
  have "unat (countWheel s + of_nat k) = unat (countWheel s) + k"
    using assms(2) by (simp add: unat_word_ariths unat_of_nat)
  with assms(1) show ?thesis
    by (simp add: isrWheel_funpow)
qed

text \<open>
  C10. Whenever \<open>loop\<close> calls \<open>consumption\<close>, the distance copy it passes is the wheel
  counter, which holds at least 262 pulses; the distance in metres is positive; only a
  figure in litres per 100 km is printed (the stationary branch is not taken); and every
  divisor of the computation is positive.
\<close>

theorem loop_distance_positive:
  assumes "loop s = (s', Some out)"
  shows "copyWheel s' = of_counter (countWheel s) \<and> 262 \<le> unat (countWheel s)
     \<and> out = consumption (copyFlow1 s') (copyFlow2 s') (copyWheel s')
     \<and> fless (Fin 0) (fmul (copyWheel s') wheelCircum)
     \<and> map unit_shown (row2 out) = [L_per_100km]
     \<and> (\<forall>d \<in> set (divisors out). fless (Fin 0) d)"
proof -
  from assms have g: "262 \<le> unat (countWheel s)"
    by (simp add: loop_def loop_guard split: if_splits)
  then have "0 < unat (countWheel s)" by arith
  then have pos: "0 < real (unat (countWheel s))" by (simp only: of_nat_0_less_iff)
  from assms g have s': "s' = snapshot_and_reset (s\<lparr>lastRead := lastRead s + interval\<rparr>)"
    and out: "out = consumption (copyFlow1 s') (copyFlow2 s') (copyWheel s')"
    by (auto simp add: loop_def loop_guard Let_def)
  have cw: "copyWheel s' = Fin (real (unat (countWheel s)))"
    and c1: "copyFlow1 s' = Fin (real (unat (countFlow1 s)))"
    and c2: "copyFlow2 s' = Fin (real (unat (countFlow2 s)))"
    by (simp_all add: s' snapshot_and_reset_eq of_counter_def)
  have o: "out = consumption (Fin (real (unat (countFlow1 s))))
      (Fin (real (unat (countFlow2 s)))) (Fin (real (unat (countWheel s))))"
    by (simp only: out cw c1 c2)
  have m: "0 < real (unat (countWheel s)) * (1915 / 1000)"
    using pos by (simp only: zero_less_mult_iff) simp
  have "out = consumption (copyFlow1 s') (copyFlow2 s') (copyWheel s')"
    by (rule out)
  moreover have "copyWheel s' = of_counter (countWheel s) \<and> 262 \<le> unat (countWheel s)
     \<and> fless (Fin 0) (fmul (copyWheel s') wheelCircum)
     \<and> map unit_shown (row2 out) = [L_per_100km]
     \<and> (\<forall>d \<in> set (divisors out). fless (Fin 0) d)"
    unfolding o consumption_moving [OF pos] cw of_counter_def wheelCircum_def
    using m g by (simp add: divisors_def del: of_nat_unat)
  ultimately show ?thesis by blast
qed

theorem loop_distance_positive_witness:
  "loop (initial\<lparr>countFlow1 := 900, countFlow2 := 450, countWheel := 262\<rparr>)
     = (initial\<lparr>copyFlow1 := Fin 900, copyFlow2 := Fin 450, copyWheel := Fin 262,
                lastRead := 5000\<rparr>,
        Some (consumption (Fin 900) (Fin 450) (Fin 262)))
   \<and> fless (Fin 0) (fmul (Fin 262) wheelCircum)
   \<and> map unit_shown (row2 (consumption (Fin 900) (Fin 450) (Fin 262))) = [L_per_100km]
   \<and> list_all (fless (Fin 0)) (divisors (consumption (Fin 900) (Fin 450) (Fin 262)))"
proof -
  have h: "loop (initial\<lparr>countFlow1 := 900, countFlow2 := 450, countWheel := 262\<rparr>)
     = (initial\<lparr>copyFlow1 := Fin 900, copyFlow2 := Fin 450, copyWheel := Fin 262,
                lastRead := 5000\<rparr>,
        Some (consumption (Fin 900) (Fin 450) (Fin 262)))"
    by (simp add: loop_def snapshot_and_reset_eq initial_def of_counter_def
        interval_def distance_def wheelCircum_def)
  have c: "copyWheel (initial\<lparr>copyFlow1 := Fin 900, copyFlow2 := Fin 450,
      copyWheel := Fin 262, lastRead := 5000\<rparr>) = Fin 262"
    by simp
  note t = loop_distance_positive [OF h, unfolded c]
  from h t show ?thesis
    unfolding list_all_iff by blast
qed

section \<open>Properties of the pulse counters\<close>

lemma unat_succ16: "unat (c :: 16 word) < 65535 \<Longrightarrow> unat (c + 1) = unat c + 1"
  by (simp add: unat_word_ariths)

lemma seen_Cons: "seen e (snap # snaps) = pulses_of (copy_of e snap) + seen e snaps"
  by (simp add: seen_def)

lemma run_Snapshot:
  "run (Snapshot # es) s =
     ((of_counter (countFlow1 s), of_counter (countFlow2 s), of_counter (countWheel s))
        # fst (run es (snapshot_and_reset s)),
      snd (run es (snapshot_and_reset s)))"
  by (simp add: Let_def case_prod_beta snapshot_and_reset_eq)

lemma run_pulse:
  "x \<noteq> Snapshot \<Longrightarrow> run (x # es) s = run es (handler x s)"
  by (cases x) (simp_all add: handler_def)

lemma no_overflow_pulse:
  "x \<noteq> Snapshot \<Longrightarrow> no_overflow (x # es) s
     = (unat (counter x s) < 65535 \<and> no_overflow es (handler x s))"
  by (cases x) (simp_all add: handler_def counter_def)

lemma counter_handler:
  "x \<noteq> Snapshot \<Longrightarrow>
     counter e (handler x s) = (if e = x then counter e s + 1 else counter e s)"
  by (cases x; cases e)
     (simp_all add: handler_def counter_def isrFlow1_def isrFlow2_def isrWheel_def)

lemma counter_snapshot: "counter e (snapshot_and_reset s) = 0"
  by (cases e) (simp_all add: counter_def snapshot_and_reset_eq)

lemma copy_of_snapshot:
  "e \<noteq> Snapshot \<Longrightarrow>
   copy_of e (of_counter (countFlow1 s), of_counter (countFlow2 s), of_counter (countWheel s))
     = Fin (real (unat (counter e s)))"
  by (cases e) (simp_all add: copy_of_def counter_def of_counter_def del: of_nat_unat)

text \<open>
  The invariant of a run without overflow: what the snapshots have seen plus what the
  counter still holds is what the counter held plus what was generated.
\<close>

lemma conserved:
  "no_overflow es s \<Longrightarrow> e \<noteq> Snapshot \<Longrightarrow>
     seen e (fst (run es s)) + real (unat (counter e (snd (run es s))))
       = real (unat (counter e s)) + real (count_list es e)"
proof (induction es arbitrary: s)
  case Nil
  show ?case by (simp add: seen_def)
next
  case (Cons x es)
  show ?case
  proof (cases "x = Snapshot")
    case False
    with Cons.prems have b: "unat (counter x s) < 65535"
      and n: "no_overflow es (handler x s)"
      by (simp_all add: no_overflow_pulse)
    have q: "seen e (fst (run es (handler x s)))
               + real (unat (counter e (snd (run es (handler x s)))))
           = real (unat (counter e (handler x s))) + real (count_list es e)"
      by (rule Cons.IH [OF n Cons.prems(2)])
    have "unat (counter e (handler x s)) = unat (counter e s) + (if e = x then 1 else 0)"
      using b False by (simp add: counter_handler unat_succ16)
    with q False show ?thesis
      by (simp add: run_pulse del: of_nat_unat)
  next
    case True
    with Cons.prems have n: "no_overflow es (snapshot_and_reset s)"
      by simp
    have q: "seen e (fst (run es (snapshot_and_reset s)))
               + real (unat (counter e (snd (run es (snapshot_and_reset s)))))
           = real (unat (counter e (snapshot_and_reset s))) + real (count_list es e)"
      by (rule Cons.IH [OF n Cons.prems(2)])
    have "seen e (fst (run (x # es) s))
        = real (unat (counter e s)) + seen e (fst (run es (snapshot_and_reset s)))"
      using Cons.prems(2) unfolding True run_Snapshot
      by (simp add: seen_Cons copy_of_snapshot del: of_nat_unat)
    moreover have "snd (run (x # es) s) = snd (run es (snapshot_and_reset s))"
      unfolding True run_Snapshot by simp
    moreover have "count_list (x # es) e = count_list es e"
      using True Cons.prems(2) by simp
    ultimately show ?thesis
      using q by (simp add: counter_snapshot del: of_nat_unat)
  qed
qed

lemma snapshots_finite:
  "list_all is_finite (map (copy_of e) (fst (run es s)))"
proof (induction es arbitrary: s)
  case Nil
  show ?case by simp
next
  case (Cons x es)
  show ?case
  proof (cases "x = Snapshot")
    case True
    have "is_finite (copy_of e
        (of_counter (countFlow1 s), of_counter (countFlow2 s), of_counter (countWheel s)))"
      by (cases e) (simp_all add: copy_of_def of_counter_def)
    with Cons.IH [of "snapshot_and_reset s"] show ?thesis
      unfolding True run_Snapshot by simp
  next
    case False
    with Cons.IH [of "handler x s"] show ?thesis
      by (simp add: run_pulse del: run.simps)
  qed
qed

lemma run_append_Snapshot:
  "snd (run (es @ [Snapshot]) s) = snapshot_and_reset (snd (run es s))"
proof (induction es arbitrary: s)
  case Nil
  show ?case by (simp add: Let_def)
next
  case (Cons x es)
  show ?case
  proof (cases "x = Snapshot")
    case True
    then show ?thesis using Cons.IH by (simp add: run_Snapshot del: run.simps)
  next
    case False
    then show ?thesis using Cons.IH by (simp add: run_pulse del: run.simps)
  qed
qed

text \<open>
  C2, as the code has it. In every sequence of handler calls and snapshots in which no
  16-bit counter is incremented at its largest value (fewer than 65536 pulses of a
  sensor between two snapshots), the pulses of a sensor seen in the snapshots, plus
  those its counter holds at the end, are those the counter held at the start plus
  those generated; so from a zero counter, and when the sequence ends with a snapshot,
  the pulses seen are exactly the pulses generated. Every snapshot value is finite.
\<close>

theorem pulses_conserved:
  assumes "no_overflow es s" and "e \<noteq> Snapshot"
  shows "seen e (fst (run es s)) + real (unat (counter e (snd (run es s))))
           = real (unat (counter e s)) + generated e es
     \<and> (counter e s = 0 \<and> es \<noteq> [] \<and> last es = Snapshot
          \<longrightarrow> seen e (fst (run es s)) = generated e es)
     \<and> list_all is_finite (map (copy_of e) (fst (run es s)))"
proof -
  have q: "seen e (fst (run es s)) + real (unat (counter e (snd (run es s))))
           = real (unat (counter e s)) + real (count_list es e)"
    by (rule conserved [OF assms])
  have 1: "seen e (fst (run es s)) + real (unat (counter e (snd (run es s))))
           = real (unat (counter e s)) + generated e es"
    using q by (simp only: generated_def)
  have 2: "seen e (fst (run es s)) = generated e es"
    if z: "counter e s = 0" and l: "es \<noteq> []" "last es = Snapshot"
  proof -
    from l have "es = butlast es @ [Snapshot]"
      using append_butlast_last_id [of es] by simp
    then have "snd (run es s) = snapshot_and_reset (snd (run (butlast es) s))"
      using run_append_Snapshot [of "butlast es" s] by simp
    then have "counter e (snd (run es s)) = 0"
      by (simp add: counter_snapshot)
    with q z show ?thesis
      by (simp add: generated_def)
  qed
  from 1 2 snapshots_finite [of e es s] show ?thesis by blast
qed

theorem pulses_conserved_witness:
  "no_overflow [PulseFlow1, PulseWheel, PulseFlow1, Snapshot, PulseFlow1, Snapshot] initial
   \<and> PulseFlow1 \<noteq> Snapshot
   \<and> seen PulseFlow1
        (fst (run [PulseFlow1, PulseWheel, PulseFlow1, Snapshot, PulseFlow1, Snapshot] initial))
       = 3
   \<and> generated PulseFlow1 [PulseFlow1, PulseWheel, PulseFlow1, Snapshot, PulseFlow1, Snapshot]
       = 3"
proof -
  have h: "no_overflow [PulseFlow1, PulseWheel, PulseFlow1, Snapshot, PulseFlow1, Snapshot]
      initial"
    by (simp add: initial_def isrFlow1_def isrWheel_def snapshot_and_reset_eq)
  have d: "PulseFlow1 \<noteq> Snapshot" by simp
  have z: "counter PulseFlow1 initial = 0"
    by (simp add: counter_def initial_def)
  have g: "generated PulseFlow1
      [PulseFlow1, PulseWheel, PulseFlow1, Snapshot, PulseFlow1, Snapshot] = 3"
    by (simp add: generated_def)
  from pulses_conserved [OF h d] z g h d show ?thesis
    by simp
qed

lemma run_replicate:
  "x \<noteq> Snapshot \<Longrightarrow> run (replicate n x @ es) s = run es ((handler x ^^ n) s)"
  by (induction n arbitrary: s) (simp_all add: run_pulse funpow_swap1 del: run.simps)

lemma handler_flow1_funpow:
  "(handler PulseFlow1 ^^ n) s = s\<lparr>countFlow1 := countFlow1 s + of_nat n\<rparr>"
  by (induction n) (simp_all add: handler_def isrFlow1_def add.commute add.left_commute)

lemma count_list_replicate_self: "count_list (replicate n x) x = n"
  by (induction n) simp_all

text \<open>
  C2 as stated fails: after 65536 pulses of the first flow meter the counter of 16 bits
  is zero again, and the snapshot that follows has seen none of them.
\<close>

theorem pulses_lost_on_overflow:
  "seen PulseFlow1 (fst (run (replicate 65536 PulseFlow1 @ [Snapshot]) initial)) = 0
   \<and> generated PulseFlow1 (replicate 65536 PulseFlow1 @ [Snapshot]) = 65536"
proof -
  have "(handler PulseFlow1 ^^ 65536) initial = initial"
    by (simp add: handler_flow1_funpow initial_def)
  then have "run (replicate 65536 PulseFlow1 @ [Snapshot]) initial = run [Snapshot] initial"
    by (simp add: run_replicate del: run.simps)
  moreover have "run [Snapshot] initial = ([(Fin 0, Fin 0, Fin 0)], initial)"
    by (simp add: Let_def snapshot_and_reset_eq initial_def of_counter_def)
  ultimately have "fst (run (replicate 65536 PulseFlow1 @ [Snapshot]) initial)
      = [(Fin 0, Fin 0, Fin 0)]"
    by (simp only: fst_conv)
  then have "seen PulseFlow1 (fst (run (replicate 65536 PulseFlow1 @ [Snapshot]) initial))
      = 0"
    by (simp add: seen_def copy_of_def)
  moreover have "generated PulseFlow1 (replicate 65536 PulseFlow1 @ [Snapshot]) = 65536"
    by (simp add: generated_def count_list_replicate_self)
  ultimately show ?thesis by (rule conjI)
qed

section \<open>Properties of the low-fuel alarm\<close>

text \<open>With a tank of 21 litres and an alarm level of 4 litres the low threshold is 19 percent.\<close>

lemma low_threshold: "cdiv (100 * fuelAlarm) fuelMax = 19"
  by (simp add: cdiv_def fuelAlarm_def fuelMax_def)

lemma fuel_cases:
  "fuel p b = (if 80 \<le> p then (False, 0) else if p \<le> 19 then (b = 0, 1) else (False, b))"
  by (simp add: fuel_def low_threshold buzz_def)

lemma alarms_Cons: "alarms (x # r) = (if fst x then 1 else 0) + alarms r"
  by (simp add: alarms_def)

lemma alarms_append: "alarms (r @ r') = alarms r + alarms r'"
  by (simp add: alarms_def)

lemma fuel_run_disarmed:
  "b \<noteq> 0 \<Longrightarrow> \<forall>p \<in> set ps. p < 80 \<Longrightarrow> alarms (fuel_run ps b) = 0"
proof (induction ps arbitrary: b)
  case Nil
  show ?case by (simp add: alarms_def)
next
  case (Cons p ps)
  from Cons.prems have p: "p < 80" and r: "\<forall>q \<in> set ps. q < 80" by simp_all
  show ?case
  proof (cases "p \<le> 19")
    case True
    have "alarms (fuel_run ps 1) = 0" using Cons.IH [of 1] r by simp
    with True p Cons.prems(1) show ?thesis by (simp add: fuel_cases alarms_Cons)
  next
    case False
    have "alarms (fuel_run ps b) = 0" using Cons.IH [OF Cons.prems(1) r] .
    with False p show ?thesis by (simp add: fuel_cases alarms_Cons)
  qed
qed

lemma fuel_run_armed:
  "\<forall>p \<in> set ps. p < 80 \<Longrightarrow>
     alarms (fuel_run ps 0) = (if \<exists>p \<in> set ps. p \<le> 19 then 1 else 0)"
proof (induction ps)
  case Nil
  show ?case by (simp add: alarms_def)
next
  case (Cons p ps)
  from Cons.prems have p: "p < 80" and r: "\<forall>q \<in> set ps. q < 80" by simp_all
  show ?case
  proof (cases "p \<le> 19")
    case True
    have "alarms (fuel_run ps 1) = 0" using fuel_run_disarmed [of 1 ps] r by simp
    with True p show ?thesis by (simp add: fuel_cases alarms_Cons)
  next
    case False
    with p Cons.IH [OF r] show ?thesis by (simp add: fuel_cases alarms_Cons)
  qed
qed

text \<open>Evaluations after a history continue from the state the history leaves.\<close>

lemma fuel_run_append:
  "\<exists>b'. fuel_run (xs @ zs) b = fuel_run xs b @ fuel_run zs b'"
proof (induction xs arbitrary: b)
  case Nil
  have "fuel_run ([] @ zs) b = fuel_run [] b @ fuel_run zs b" by simp
  then show ?case by (rule exI)
next
  case (Cons x xs)
  obtain f b1 where f: "fuel x b = (f, b1)" by (cases "fuel x b")
  from Cons.IH [of b1] obtain b' where
    "fuel_run (xs @ zs) b1 = fuel_run xs b1 @ fuel_run zs b'" by blast
  with f have "fuel_run ((x # xs) @ zs) b = fuel_run (x # xs) b @ fuel_run zs b'"
    by simp
  then show ?case by blast
qed

lemma fuel_run_crossing:
  assumes "80 \<le> h" and "\<forall>p \<in> set ys. p < 80"
  shows "alarms (fuel_run (xs @ h # ys) b)
         = alarms (fuel_run xs b) + (if \<exists>p \<in> set ys. p \<le> 19 then 1 else 0)"
proof -
  from fuel_run_append [of xs "h # ys" b] obtain b' where
    "fuel_run (xs @ h # ys) b = fuel_run xs b @ fuel_run (h # ys) b'" by blast
  moreover have "alarms (fuel_run (h # ys) b') = alarms (fuel_run ys 0)"
    using assms(1) by (simp add: fuel_cases alarms_Cons)
  ultimately show ?thesis
    using fuel_run_armed [OF assms(2)] by (simp add: alarms_append)
qed

text \<open>
  C6. On the samples 90, 50, 3, 50, 90, starting armed, the alarm sounds only at the
  third sample and the policy re-arms only at the fifth. In general, over samples that
  all stay below 80 the alarm sounds once if the policy starts armed and some sample
  is at or below the low threshold, and never otherwise (never while disarmed); and
  after any history, a sample of at least 80 followed by samples below 80 adds exactly
  one alarm if they reach the low threshold, and none if they do not.
\<close>

theorem alarm_once_per_crossing:
  "fuel_run [90, 50, 3, 50, 90] 0
     = [(False, False), (False, False), (True, False), (False, False), (False, True)]
   \<and> ((\<forall>p \<in> set ps. p < 80) \<longrightarrow>
        alarms (fuel_run ps b)
          = (if b = 0 \<and> (\<exists>p \<in> set ps. p \<le> cdiv (100 * fuelAlarm) fuelMax) then 1 else 0)
        \<and> (\<forall>h. 80 \<le> h \<longrightarrow>
             alarms (fuel_run (xs @ h # ps) b)
               = alarms (fuel_run xs b)
                 + (if \<exists>p \<in> set ps. p \<le> cdiv (100 * fuelAlarm) fuelMax then 1 else 0)))"
proof -
  have "fuel_run [90, 50, 3, 50, 90] 0
     = [(False, False), (False, False), (True, False), (False, False), (False, True)]"
    by (simp add: fuel_cases)
  moreover have "alarms (fuel_run ps b)
      = (if b = 0 \<and> (\<exists>p \<in> set ps. p \<le> cdiv (100 * fuelAlarm) fuelMax) then 1 else 0)"
    if "\<forall>p \<in> set ps. p < 80"
    using that fuel_run_armed [of ps] fuel_run_disarmed [of b ps]
    by (cases "b = 0") (simp_all add: low_threshold)
  moreover have "alarms (fuel_run (xs @ h # ps) b)
      = alarms (fuel_run xs b)
        + (if \<exists>p \<in> set ps. p \<le> cdiv (100 * fuelAlarm) fuelMax then 1 else 0)"
    if "\<forall>p \<in> set ps. p < 80" and "80 \<le> h" for h
    using fuel_run_crossing [OF that(2) that(1), of xs b] by (simp only: low_threshold)
  ultimately show ?thesis by blast
qed

theorem alarm_once_per_crossing_witness:
  "list_all (\<lambda>p. p < 80) [50, 3, 10, 50 :: int]
   \<and> alarms (fuel_run [50, 3, 10, 50] 0) = 1
   \<and> alarms (fuel_run [50, 3, 10, 50] 1) = 0
   \<and> alarms (fuel_run ([10, 5] @ 90 # [50, 3, 10, 50]) 0) = alarms (fuel_run [10, 5] 0) + 1"
proof -
  have h: "\<forall>p \<in> set [50, 3, 10, 50 :: int]. p < 80" by simp
  have l: "\<exists>p \<in> set [50, 3, 10, 50 :: int]. p \<le> cdiv (100 * fuelAlarm) fuelMax"
    by (simp add: low_threshold)
  from alarm_once_per_crossing [of "[50, 3, 10, 50]" 0 "[10, 5]"]
       alarm_once_per_crossing [of "[50, 3, 10, 50]" 1 "[10, 5]"] h l
  show ?thesis by simp
qed

text \<open>
  C7. An evaluation that starts disarmed ends armed exactly when the fuel percentage
  is at least 80; and \<open>buzz\<close>, the only other writer of the latch, leaves it disarmed.
\<close>

theorem rearm_only_at_80:
  "(b \<noteq> 0 \<longrightarrow> (snd (fuel p b) = 0 \<longleftrightarrow> 80 \<le> p)) \<and> snd (buzz b) \<noteq> 0"
  by (simp add: fuel_cases buzz_def)

theorem rearm_only_at_80_witness:
  "(1 :: 8 word) \<noteq> 0 \<and> snd (fuel 90 1) = 0 \<and> snd (fuel 79 1) \<noteq> 0 \<and> snd (buzz 1) \<noteq> 0"
  using rearm_only_at_80 [of 1 90] rearm_only_at_80 [of 1 79] by simp

section \<open>Properties of the RPM computation\<close>

text \<open>
  The divisor is the reading cut to 16 bits, so the division by zero happens for the
  reading 0 and for every multiple of 65536.
\<close>

lemma rpm_fault: "rpm p = Inl Division_by_zero \<longleftrightarrow> (ucast p :: 16 word) = 0"
  by (simp add: rpm_def Let_def signed_eq_0_iff)

lemma rpm_examples:
  "rpm 65536 = Inl Division_by_zero \<and> rpm 1000 = Inr 60 \<and> rpm 1 = Inr (- 5536)"
  by (simp add: rpm_def cdiv_def)

text \<open>
  C9. On a pulse-width reading of zero, which \<open>pulseIn\<close> returns when no pulse arrives
  in time, \<open>rpm\<close> divides 60000 by zero: nothing in the function tests the reading.
\<close>

theorem rpm_divides_by_zero: "rpm 0 = Inl Division_by_zero"
  by (simp add: rpm_def)

end
